theory Spec2Isabelle
  imports Complex_Main "HOL-Library.Sublist"
begin

section \<open>Text normalisation (emotion\_router.py, lines 12--13 and 35--45)\<close>

text \<open>
  A Python \<^verbatim>\<open>str\<close> is modelled as a \<^typ>\<open>string\<close> whose characters are the code
  points U+0000 to U+00FF (Latin-1, with the accented letters of French). The three
  library operations the router uses are written out for
  this range, following the Unicode character database:

  \<^item> \<^verbatim>\<open>str.lower()\<close> moves A--Z and U+00C0--U+00DE (except the multiplication sign
    U+00D7) up by 32 and leaves every other code point alone;
  \<^item> \<^verbatim>\<open>unicodedata.normalize('NFD', s)\<close> replaces each precomposed letter by its base
    letter followed by one combining mark; the marks are the only code points of
    category \<^verbatim>\<open>Mn\<close> that appear, so the filter of \<^verbatim>\<open>strip_accents\<close> keeps exactly
    the base letters;
  \<^item> \<^verbatim>\<open>str.split()\<close> without argument cuts at runs of white space (U+0009--U+000D,
    U+001C--U+0020, U+0085, U+00A0) and yields no empty token.
\<close>

definition str_lower_char :: "char \<Rightarrow> char" where
  "str_lower_char c =
     (let n = (of_char c :: nat)
      in if (65 \<le> n \<and> n \<le> 90) \<or> (192 \<le> n \<and> n \<le> 222 \<and> n \<noteq> 215)
         then char_of (n + 32) else c)"

definition str_lower :: "string \<Rightarrow> string" where
  "str_lower s = map str_lower_char s"

text \<open>The base letter of the canonical decomposition of a code point.\<close>

definition nfd_base :: "char \<Rightarrow> char" where
  "nfd_base c =
     (let n = (of_char c :: nat)
      in if n < 192 then c
         else if n \<le> 197 then CHR ''A''
         else if n = 199 then CHR ''C''
         else if 200 \<le> n \<and> n \<le> 203 then CHR ''E''
         else if 204 \<le> n \<and> n \<le> 207 then CHR ''I''
         else if n = 209 then CHR ''N''
         else if 210 \<le> n \<and> n \<le> 214 then CHR ''O''
         else if 217 \<le> n \<and> n \<le> 220 then CHR ''U''
         else if n = 221 then CHR ''Y''
         else if 224 \<le> n \<and> n \<le> 229 then CHR ''a''
         else if n = 231 then CHR ''c''
         else if 232 \<le> n \<and> n \<le> 235 then CHR ''e''
         else if 236 \<le> n \<and> n \<le> 239 then CHR ''i''
         else if n = 241 then CHR ''n''
         else if 242 \<le> n \<and> n \<le> 246 then CHR ''o''
         else if 249 \<le> n \<and> n \<le> 252 then CHR ''u''
         else if n = 253 \<or> n = 255 then CHR ''y''
         else c)"

definition strip_accents :: "string \<Rightarrow> string" where
  "strip_accents s = map nfd_base s"

definition is_space :: "char \<Rightarrow> bool" where
  "is_space c =
     (let n = (of_char c :: nat)
      in (9 \<le> n \<and> n \<le> 13) \<or> (28 \<le> n \<and> n \<le> 32) \<or> n = 133 \<or> n = 160)"

text \<open>
  \<^verbatim>\<open>t.split()\<close>: skip the white space in front, take the run of other characters as a
  token, go on with the rest.
\<close>

function py_split :: "string \<Rightarrow> string list" where
  "py_split s =
     (case dropWhile is_space s of
        [] \<Rightarrow> []
      | c # cs \<Rightarrow> takeWhile (\<lambda>x. \<not> is_space x) (c # cs)
                 # py_split (dropWhile (\<lambda>x. \<not> is_space x) (c # cs)))"
  by pat_completeness auto
termination
proof (relation "measure length")
  show "wf (measure length)" by simp
next
  fix s :: string and c cs
  assume eq: "dropWhile is_space s = c # cs"
  have "\<not> is_space c"
    using hd_dropWhile [of is_space s] eq by simp
  then have "length (dropWhile (\<lambda>x. \<not> is_space x) (c # cs)) \<le> length cs"
    by (simp add: length_dropWhile_le)
  moreover have "length (c # cs) \<le> length s"
    using length_dropWhile_le [of is_space s] eq by simp
  ultimately show "(dropWhile (\<lambda>x. \<not> is_space x) (c # cs), s) \<in> measure length"
    by simp
qed

declare py_split.simps [simp del]

text \<open>\<^verbatim>\<open>p in t\<close> on two strings: \<open>p\<close> occurs in \<open>t\<close> as a contiguous substring.\<close>

fun str_in :: "string \<Rightarrow> string \<Rightarrow> bool" where
  "str_in p [] = (p = [])"
| "str_in p (c # cs) = (prefix p (c # cs) \<or> str_in p cs)"

section \<open>The emotion router (emotion\_router.py)\<close>

text \<open>
  The configuration is the parsed JSON. A dictionary is an association list in
  insertion order, which is the order \<^verbatim>\<open>items()\<close> iterates in; its keys are distinct.
  A key that may be absent is an \<^typ>\<open>'a option\<close>, an absent dictionary is the empty
  list. Python floats are modelled by \<^typ>\<open>real\<close>: comparisons are those of the
  numbers, sums are exact, and NaN and the infinities are left out.
\<close>

record emotion_data =
  emo_keywords :: "(string \<times> real) list"
  emo_phrases :: "(string \<times> real) list"
  emo_priority :: "int option"

record strategy_cfg =
  min_score_to_trigger :: "real option"
  cfg_tie_breaker :: "string option"
  cfg_fallback :: "string option"
  cooldown_seconds :: "real option"

record router_cfg =
  cfg_strategy :: strategy_cfg
  cfg_emotions :: "(string \<times> emotion_data) list"

record router =
  last_trigger_ts :: real
  min_score :: real
  tie_breaker :: string
  fallback :: string
  cooldown :: real
  routing :: "(string \<times> emotion_data) list"
  priority :: "(string \<times> int) list"

text \<open>\<^verbatim>\<open>EmotionRouter.__init__\<close>, with the defaults of the \<^verbatim>\<open>get\<close> calls.\<close>

definition router_init :: "router_cfg \<Rightarrow> router" where
  "router_init cfg =
     \<lparr> last_trigger_ts = 0,
       min_score = (case min_score_to_trigger (cfg_strategy cfg) of None \<Rightarrow> 1 | Some v \<Rightarrow> v),
       tie_breaker = (case cfg_tie_breaker (cfg_strategy cfg) of None \<Rightarrow> ''priority'' | Some v \<Rightarrow> v),
       fallback = (case cfg_fallback (cfg_strategy cfg) of None \<Rightarrow> ''idle'' | Some v \<Rightarrow> v),
       cooldown = (case cooldown_seconds (cfg_strategy cfg) of None \<Rightarrow> 2 | Some v \<Rightarrow> v),
       routing = cfg_emotions cfg,
       priority = map (\<lambda>(emo, data). (emo, case emo_priority data of None \<Rightarrow> 0 | Some p \<Rightarrow> p))
                      (cfg_emotions cfg) \<rparr>"

text \<open>\<^verbatim>\<open>self.priority.get(emo, 0)\<close>; \<open>emo\<close> may still be \<^verbatim>\<open>None\<close>.\<close>

definition priority_get :: "router \<Rightarrow> string option \<Rightarrow> int" where
  "priority_get r emo =
     (case emo of
        None \<Rightarrow> 0
      | Some e \<Rightarrow> (case map_of (priority r) e of None \<Rightarrow> 0 | Some p \<Rightarrow> p))"

text \<open>The two inner loops of \<^verbatim>\<open>analyze\<close> (lines 41--46), \<open>t\<close> being the normalised text.\<close>

fun keyword_loop :: "string \<Rightarrow> (string \<times> real) list \<Rightarrow> real \<Rightarrow> real" where
  "keyword_loop t [] score = score"
| "keyword_loop t ((kw, w) # rest) score =
     keyword_loop t rest
       (if strip_accents (str_lower kw) \<in> set (py_split t) then score + w else score)"

fun phrase_loop :: "string \<Rightarrow> (string \<times> real) list \<Rightarrow> real \<Rightarrow> real" where
  "phrase_loop t [] score = score"
| "phrase_loop t ((ph, w) # rest) score =
     phrase_loop t rest
       (if str_in (strip_accents (str_lower ph)) t then score + w else score)"

definition score_emotion :: "emotion_data \<Rightarrow> string \<Rightarrow> real" where
  "score_emotion data t = phrase_loop t (emo_phrases data) (keyword_loop t (emo_keywords data) 0)"

text \<open>The outer loop (lines 38--47): the items of the dictionary \<^verbatim>\<open>scores\<close>.\<close>

definition score_all :: "router \<Rightarrow> string \<Rightarrow> (string \<times> real) list" where
  "score_all r t = map (\<lambda>(emo, data). (emo, score_emotion data t)) (routing r)"

text \<open>\<^verbatim>\<open>_pick_best\<close>: the loop over the scores, then the \<^verbatim>\<open>or\<close> on the name.\<close>

fun pick_loop :: "router \<Rightarrow> (string \<times> real) list \<Rightarrow> string option \<times> real \<Rightarrow> string option \<times> real" where
  "pick_loop r [] best = best"
| "pick_loop r ((emo, s) # rest) (best_emo, best_score) =
     pick_loop r rest
       (if s > best_score then (Some emo, s)
        else if s = best_score \<and> s > 0 then
          (if tie_breaker r = ''priority'' then
             (if priority_get r (Some emo) > priority_get r best_emo then (Some emo, s)
              else (best_emo, best_score))
           else (best_emo, best_score))
        else (best_emo, best_score))"

definition pick_best :: "router \<Rightarrow> (string \<times> real) list \<Rightarrow> string \<times> real" where
  "pick_best r scores =
     (case pick_loop r scores (None, - 1) of
        (best_emo, best_score) \<Rightarrow>
          ((case best_emo of None \<Rightarrow> fallback r | Some e \<Rightarrow> if e = [] then fallback r else e),
           best_score))"

text \<open>
  \<^verbatim>\<open>analyze\<close>: \<open>now\<close> is the value \<^verbatim>\<open>time.time()\<close> returns in this call. The result is
  the returned pair and the router after the call.
\<close>

definition analyze :: "router \<Rightarrow> real \<Rightarrow> string \<Rightarrow> (string \<times> real) \<times> router" where
  "analyze r now text =
     (if now - last_trigger_ts r < cooldown r then ((fallback r, 0), r)
      else
        (let t = strip_accents (str_lower text);
             scores = score_all r t
         in case pick_best r scores of
              (best_emo, best_score) \<Rightarrow>
                if best_score \<ge> min_score r
                then ((best_emo, best_score), r\<lparr>last_trigger_ts := now\<rparr>)
                else ((fallback r, 0), r)))"

text \<open>
  The configuration of the scenario: the emotion \<^verbatim>\<open>tristesse\<close> with one keyword and one
  phrase, after an emotion that the two texts of the scenario do not mention.
\<close>

definition tristesse_cfg :: router_cfg where
  "tristesse_cfg =
     \<lparr> cfg_strategy = \<lparr> min_score_to_trigger = Some 1, cfg_tie_breaker = None,
                        cfg_fallback = None, cooldown_seconds = None \<rparr>,
       cfg_emotions =
         [(''joie'', \<lparr> emo_keywords = [(''content'', 1)], emo_phrases = [],
                       emo_priority = None \<rparr>),
          (''tristesse'', \<lparr> emo_keywords = [(''triste'', 1)],
                            emo_phrases = [(''mon chat est mort'', 3)],
                            emo_priority = None \<rparr>)] \<rparr>"

text \<open>
  A configuration with a negative weight: the keyword \<^verbatim>\<open>calme\<close> lowers the score of
  \<^verbatim>\<open>colere\<close>.
\<close>

definition colere_cfg :: router_cfg where
  "colere_cfg =
     \<lparr> cfg_strategy = \<lparr> min_score_to_trigger = Some 1, cfg_tie_breaker = None,
                        cfg_fallback = None, cooldown_seconds = None \<rparr>,
       cfg_emotions =
         [(''colere'', \<lparr> emo_keywords = [(''calme'', - 2)], emo_phrases = [],
                         emo_priority = None \<rparr>)] \<rparr>"

text \<open>The emotion of the scenario, and four emotions that tie on one keyword.\<close>

definition tristesse_data :: emotion_data where
  "tristesse_data = \<lparr> emo_keywords = [(''triste'', 1)],
                      emo_phrases = [(''mon chat est mort'', 3)], emo_priority = None \<rparr>"

definition tie_cfg :: router_cfg where
  "tie_cfg =
     \<lparr> cfg_strategy = \<lparr> min_score_to_trigger = None, cfg_tie_breaker = None,
                        cfg_fallback = None, cooldown_seconds = None \<rparr>,
       cfg_emotions =
         [(''joie'', \<lparr> emo_keywords = [(''super'', 2), (''genial'', 1)], emo_phrases = [],
                       emo_priority = Some 1 \<rparr>),
          (''colere'', \<lparr> emo_keywords = [(''super'', 2), (''genial'', 3)], emo_phrases = [],
                         emo_priority = Some 2 \<rparr>),
          (''surprise'', \<lparr> emo_keywords = [(''super'', 2)], emo_phrases = [],
                           emo_priority = Some 2 \<rparr>),
          (''tristesse'', \<lparr> emo_keywords = [(''super'', 1)], emo_phrases = [],
                            emo_priority = Some 5 \<rparr>)] \<rparr>"

text \<open>
  What the specification calls a whole token: a non-empty run without white space that
  is delimited in the text by white space or by an end of the text.
\<close>

definition whitespace_token :: "string \<Rightarrow> string \<Rightarrow> bool" where
  "whitespace_token t tok \<longleftrightarrow>
     tok \<noteq> [] \<and> (\<forall>c \<in> set tok. \<not> is_space c) \<and>
     (\<exists>pre post. t = pre @ tok @ post
        \<and> (pre = [] \<or> is_space (last pre)) \<and> (post = [] \<or> is_space (hd post)))"

section \<open>The player (nestor\_player.py)\<close>

text \<open>
  The player object keeps the media map, the current mode and the name of the idle
  entry. What a method does to the outside (a line printed, a command given to the VLC
  player) is returned as a list of effects, in the order of the calls. An exception is
  the left summand; the calls into the VLC binding are taken to return. \<open>fs\<close> tells
  which paths exist on disk at the time of the call (\<^verbatim>\<open>os.path.exists\<close>). The lock around \<^verbatim>\<open>trigger_emotion\<close> and \<^verbatim>\<open>_on_media_end\<close>
  makes each call one step.
\<close>

datatype py_error = KeyError string | ValueError string

record media_info =
  media_file :: string
  media_loop :: bool
  description :: string

datatype effect =
    Print_unknown string
  | Print_missing string string
  | Vlc_set_media string
  | Vlc_add_option string
  | Vlc_play
  | Sleep

record player =
  media_map :: "(string \<times> media_info) list"
  current_mode :: string
  idle_name :: string

text \<open>\<^verbatim>\<open>_play_media\<close>: \<^verbatim>\<open>self.media_map[name]\<close> raises \<^verbatim>\<open>KeyError\<close> on a missing name.\<close>

definition play_media ::
  "(string \<Rightarrow> bool) \<Rightarrow> string \<Rightarrow> bool \<Rightarrow> player \<Rightarrow> py_error + player \<times> effect list" where
  "play_media fs name lp p =
     (case map_of (media_map p) name of
        None \<Rightarrow> Inl (KeyError name)
      | Some info \<Rightarrow>
          Inr (p,
               (if fs (media_file info) then [] else [Print_missing name (media_file info)])
               @ [Vlc_set_media (media_file info)]
               @ (if lp then [Vlc_add_option ''input-repeat=-1''] else [])
               @ [Vlc_play, Sleep]))"

text \<open>
  \<^verbatim>\<open>_play_idle\<close>: the mode is set first; the loop flag it reads from the map is not
  used, the idle clip is always played looped.
\<close>

definition play_idle ::
  "(string \<Rightarrow> bool) \<Rightarrow> player \<Rightarrow> py_error + player \<times> effect list" where
  "play_idle fs p =
     (let p1 = p\<lparr>current_mode := idle_name p\<rparr>
      in case map_of (media_map p1) (idle_name p1) of
           None \<Rightarrow> Inl (KeyError (idle_name p1))
         | Some info \<Rightarrow> play_media fs (idle_name p1) True p1)"

text \<open>\<^verbatim>\<open>_on_media_end\<close>: both branches of the test play the idle clip.\<close>

definition on_media_end ::
  "(string \<Rightarrow> bool) \<Rightarrow> player \<Rightarrow> py_error + player \<times> effect list" where
  "on_media_end fs p =
     (if current_mode p \<noteq> idle_name p then play_idle fs p else play_idle fs p)"

definition trigger_emotion ::
  "(string \<Rightarrow> bool) \<Rightarrow> string \<Rightarrow> player \<Rightarrow> py_error + player \<times> effect list" where
  "trigger_emotion fs name p =
     (if map_of (media_map p) name = None then Inr (p, [Print_unknown name])
      else if name = idle_name p then play_idle fs p
      else play_media fs name False (p\<lparr>current_mode := name\<rparr>))"

text \<open>
  \<^verbatim>\<open>__init__\<close>, from the \<^verbatim>\<open>emotions\<close> object of the configuration with its paths
  resolved: \<^verbatim>\<open>_validate_config\<close> asks for the key \<^verbatim>\<open>idle\<close>, \<^verbatim>\<open>_prepare_idle\<close>
  checks it again and starts the idle clip.
\<close>

definition player_init ::
  "(string \<Rightarrow> bool) \<Rightarrow> (string \<times> media_info) list \<Rightarrow> py_error + player \<times> effect list" where
  "player_init fs emotions =
     (if map_of emotions ''idle'' = None then Inl (ValueError ''idle'')
      else
        (let p = \<lparr> media_map = emotions, current_mode = ''idle'', idle_name = ''idle'' \<rparr>
         in if map_of (media_map p) (idle_name p) = None then Inl (ValueError ''idle'')
            else play_idle fs p))"

text \<open>The calls the player receives, and a run of them.\<close>

datatype event = Trigger string | Media_finished

definition step ::
  "(string \<Rightarrow> bool) \<Rightarrow> event \<Rightarrow> player \<Rightarrow> py_error + player \<times> effect list" where
  "step fs ev p =
     (case ev of Trigger name \<Rightarrow> trigger_emotion fs name p | Media_finished \<Rightarrow> on_media_end fs p)"

fun run ::
  "((string \<Rightarrow> bool) \<times> event) list \<Rightarrow> player \<Rightarrow> py_error + player \<times> effect list" where
  "run [] p = Inr (p, [])"
| "run ((fs, ev) # rest) p =
     (case step fs ev p of
        Inl e \<Rightarrow> Inl e
      | Inr (p1, out1) \<Rightarrow>
          (case run rest p1 of
             Inl e \<Rightarrow> Inl e
           | Inr (p2, out2) \<Rightarrow> Inr (p2, out1 @ out2)))"

text \<open>The states a player can be in: built by \<^verbatim>\<open>__init__\<close>, then changed by calls.\<close>

inductive reachable :: "player \<Rightarrow> bool" where
  reachable_init: "player_init fs emotions = Inr (p, out) \<Longrightarrow> reachable p"
| reachable_step: "reachable p \<Longrightarrow> step fs ev p = Inr (p', out) \<Longrightarrow> reachable p'"

text \<open>A media map with the idle clip and one emotion; no file is missing.\<close>

definition demo_emotions :: "(string \<times> media_info) list" where
  "demo_emotions =
     [(''idle'', \<lparr> media_file = ''/v/idle.mp4'', media_loop = True, description = [] \<rparr>),
      (''joie'', \<lparr> media_file = ''/v/joie.mp4'', media_loop = False, description = [] \<rparr>)]"

definition demo_player :: player where
  "demo_player = \<lparr> media_map = demo_emotions, current_mode = ''idle'', idle_name = ''idle'' \<rparr>"

section \<open>Properties of the router\<close>

lemma analyze_cases:
  "analyze r now text =
     (if \<not> now - last_trigger_ts r < cooldown r
         \<and> snd (pick_best r (score_all r (strip_accents (str_lower text)))) \<ge> min_score r
      then (pick_best r (score_all r (strip_accents (str_lower text))), r\<lparr>last_trigger_ts := now\<rparr>)
      else ((fallback r, 0), r))"
  by (simp add: analyze_def Let_def split: prod.splits)

lemma tristesse_text1:
  "score_all (router_init tristesse_cfg) (strip_accents (str_lower ''mon chat est mort''))
     = [(''joie'', 0), (''tristesse'', 3)]"
  by (simp add: score_all_def score_emotion_def router_init_def tristesse_cfg_def
      strip_accents_def str_lower_def nfd_base_def str_lower_char_def is_space_def py_split.simps)

lemma tristesse_text2:
  "score_all (router_init tristesse_cfg) (strip_accents (str_lower ''tout va bien''))
     = [(''joie'', 0), (''tristesse'', 0)]"
  by (simp add: score_all_def score_emotion_def router_init_def tristesse_cfg_def
      strip_accents_def str_lower_def nfd_base_def str_lower_char_def is_space_def py_split.simps)

lemma tristesse_fields:
  "min_score (router_init tristesse_cfg) = 1"
  "cooldown (router_init tristesse_cfg) = 2"
  "fallback (router_init tristesse_cfg) = ''idle''"
  "last_trigger_ts (router_init tristesse_cfg) = 0"
  by (simp_all add: router_init_def tristesse_cfg_def)

lemma tristesse_analyze1:
  "analyze (router_init tristesse_cfg) 1000 ''mon chat est mort''
     = ((''tristesse'', 3), (router_init tristesse_cfg)\<lparr>last_trigger_ts := 1000\<rparr>)"
  by (simp add: analyze_cases tristesse_text1 tristesse_fields pick_best_def)

lemma tristesse_analyze2:
  "analyze (router_init tristesse_cfg) 1000 ''tout va bien''
     = ((''idle'', 0), router_init tristesse_cfg)"
  by (simp add: analyze_cases tristesse_text2 tristesse_fields pick_best_def)

lemma tristesse_routing:
  "routing (router_init tristesse_cfg)
     = [(''joie'', \<lparr> emo_keywords = [(''content'', 1)], emo_phrases = [],
                     emo_priority = None \<rparr>)]
       @ (''tristesse'', \<lparr> emo_keywords = [(''triste'', 1)],
                            emo_phrases = [(''mon chat est mort'', 3)], emo_priority = None \<rparr>)
       # []"
  by (simp add: router_init_def tristesse_cfg_def)

lemma tristesse_best1:
  "pick_best (router_init tristesse_cfg)
     (score_all (router_init tristesse_cfg) (strip_accents (str_lower ''mon chat est mort'')))
   = (''tristesse'', 3)"
  by (simp add: tristesse_text1 pick_best_def)

lemma tristesse_best2:
  "pick_best (router_init tristesse_cfg)
     (score_all (router_init tristesse_cfg) (strip_accents (str_lower ''tout va bien'')))
   = (''joie'', 0)"
  by (simp add: tristesse_text2 pick_best_def)

lemma tristesse_later:
  "analyze (router_init tristesse_cfg) 1001 ''mon chat est mort''
     = ((''tristesse'', 3), (router_init tristesse_cfg)\<lparr>last_trigger_ts := 1001\<rparr>)"
  by (simp add: analyze_cases tristesse_best1 tristesse_fields)

lemma pick_loop_append:
  "pick_loop r (xs @ ys) best = pick_loop r ys (pick_loop r xs best)"
  by (induction r xs best rule: pick_loop.induct) simp_all

lemma pick_loop_origin:
  "pick_loop r xs (be, bs) = (be', bs') \<Longrightarrow>
     (be', bs') = (be, bs) \<or> (\<exists>e. be' = Some e \<and> (e, bs') \<in> set xs)"
proof (induction r xs "(be, bs)" arbitrary: be bs rule: pick_loop.induct)
  case (1 r)
  then show ?case by simp
next
  case (2 r emo s rest best_emo best_score)
  then show ?case
    by (fastforce split: if_splits)
qed

lemma pick_loop_keep:
  assumes "\<forall>x \<in> set xs. snd x < s \<or>
             (snd x = s \<and> (0 < s \<and> tie_breaker r = ''priority''
                \<longrightarrow> priority_get r (Some (fst x)) \<le> priority_get r (Some e)))"
  shows "pick_loop r xs (Some e, s) = (Some e, s)"
  using assms
proof (induction xs)
  case Nil
  then show ?case by simp
next
  case (Cons x xs)
  obtain a sa where x: "x = (a, sa)" by (cases x)
  from Cons.prems x have "sa < s \<or>
      (sa = s \<and> (0 < s \<and> tie_breaker r = ''priority''
         \<longrightarrow> priority_get r (Some a) \<le> priority_get r (Some e)))"
    by simp
  then have "pick_loop r (x # xs) (Some e, s) = pick_loop r xs (Some e, s)"
    unfolding x by auto
  with Cons show ?case by simp
qed

lemma pick_loop_winner:
  assumes pre: "\<forall>x \<in> set pre. snd x < s \<or>
             (snd x = s \<and> 0 < s \<and> tie_breaker r = ''priority''
                \<and> priority_get r (Some (fst x)) < priority_get r (Some e))"
    and s: "- 1 < s"
    and post: "\<forall>x \<in> set post. snd x < s \<or>
             (snd x = s \<and> (0 < s \<and> tie_breaker r = ''priority''
                \<longrightarrow> priority_get r (Some (fst x)) \<le> priority_get r (Some e)))"
  shows "pick_loop r (pre @ (e, s) # post) (None, - 1) = (Some e, s)"
proof -
  obtain be bs where acc: "pick_loop r pre (None, - 1) = (be, bs)"
    by (cases "pick_loop r pre (None, - 1)")
  have "pick_loop r [(e, s)] (be, bs) = (Some e, s)"
  proof -
    from pick_loop_origin [OF acc]
    consider "be = None" "bs = - 1" | e' where "be = Some e'" "(e', bs) \<in> set pre"
      by auto
    then show ?thesis
    proof cases
      case 1
      with s show ?thesis by simp
    next
      case 2
      with pre have "bs < s \<or> (bs = s \<and> 0 < s \<and> tie_breaker r = ''priority''
                \<and> priority_get r (Some e') < priority_get r (Some e))"
        by fastforce
      with 2 show ?thesis by auto
    qed
  qed
  then have "pick_loop r (pre @ [(e, s)]) (None, - 1) = (Some e, s)"
    by (simp add: pick_loop_append acc)
  then have "pick_loop r ((pre @ [(e, s)]) @ post) (None, - 1) = pick_loop r post (Some e, s)"
    by (simp only: pick_loop_append)
  then show ?thesis
    using pick_loop_keep [OF post] by simp
qed

text \<open>
  C1. Whatever the router and the text, \<^verbatim>\<open>analyze\<close> returns a score that reaches
  \<^verbatim>\<open>min_score_to_trigger\<close>, or it returns the fallback with score 0; so it never
  returns an emotion other than the fallback with a score below the threshold.
\<close>

theorem analyze_threshold_or_fallback:
  "(snd (fst (analyze r now text)) \<ge> min_score r
      \<or> fst (analyze r now text) = (fallback r, 0))
   \<and> \<not> (fst (fst (analyze r now text)) \<noteq> fallback r
          \<and> snd (fst (analyze r now text)) < min_score r)"
  by (auto simp: analyze_cases)

theorem analyze_threshold_or_fallback_witness:
  "fst (analyze (router_init tristesse_cfg) 1000 ''mon chat est mort'') = (''tristesse'', 3)
   \<and> (3::real) \<ge> min_score (router_init tristesse_cfg)
   \<and> fst (analyze (router_init tristesse_cfg) 1000 ''tout va bien'')
       = (fallback (router_init tristesse_cfg), 0)"
  using analyze_threshold_or_fallback [of "router_init tristesse_cfg" 1000 "''mon chat est mort''"]
    analyze_threshold_or_fallback [of "router_init tristesse_cfg" 1000 "''tout va bien''"]
  by (simp add: tristesse_analyze1 tristesse_analyze2 tristesse_fields)

text \<open>
  C5. \<^verbatim>\<open>analyze\<close> changes nothing of the router but \<^verbatim>\<open>last_trigger_ts\<close>, and changes that
  only when it returns the winning emotion with a score at or above \<^verbatim>\<open>min_score\<close>; a
  return from the cooldown gate and a return below the threshold leave the router as it
  was.
\<close>

theorem analyze_frame:
  "analyze r now text = (res, r') \<Longrightarrow>
     (r' = r \<or> r' = r\<lparr>last_trigger_ts := now\<rparr>)
     \<and> (r' \<noteq> r \<longrightarrow>
           \<not> now - last_trigger_ts r < cooldown r
           \<and> res = pick_best r (score_all r (strip_accents (str_lower text)))
           \<and> snd res \<ge> min_score r)
     \<and> (now - last_trigger_ts r < cooldown r \<longrightarrow> r' = r \<and> res = (fallback r, 0))
     \<and> (snd (pick_best r (score_all r (strip_accents (str_lower text)))) < min_score r
           \<longrightarrow> r' = r \<and> res = (fallback r, 0))"
  by (auto simp: analyze_cases split: if_splits)

theorem analyze_frame_witness:
  "analyze (router_init tristesse_cfg) 1000 ''tout va bien'' = ((''idle'', 0), router_init tristesse_cfg)
   \<and> snd (pick_best (router_init tristesse_cfg)
        (score_all (router_init tristesse_cfg) (strip_accents (str_lower ''tout va bien''))))
      < min_score (router_init tristesse_cfg)
   \<and> analyze (router_init tristesse_cfg) 1000 ''mon chat est mort''
      = ((''tristesse'', 3), (router_init tristesse_cfg)\<lparr>last_trigger_ts := 1000\<rparr>)
   \<and> \<not> 1000 - last_trigger_ts (router_init tristesse_cfg) < cooldown (router_init tristesse_cfg)
   \<and> (3::real) \<ge> min_score (router_init tristesse_cfg)"
proof -
  have below: "snd (pick_best (router_init tristesse_cfg)
        (score_all (router_init tristesse_cfg) (strip_accents (str_lower ''tout va bien''))))
      < min_score (router_init tristesse_cfg)"
    by (simp add: tristesse_best2 tristesse_fields)
  have "(router_init tristesse_cfg)\<lparr>last_trigger_ts := 1000\<rparr> \<noteq> router_init tristesse_cfg"
    by (simp add: router_init_def)
  with analyze_frame [OF tristesse_analyze1]
  have "\<not> 1000 - last_trigger_ts (router_init tristesse_cfg) < cooldown (router_init tristesse_cfg)
        \<and> snd (''tristesse'', 3::real) \<ge> min_score (router_init tristesse_cfg)"
    by blast
  with below analyze_frame [OF tristesse_analyze2] tristesse_analyze1 tristesse_analyze2
  show ?thesis by simp
qed

text \<open>
  C2, as stated, fails: a first call that does not trigger leaves \<^verbatim>\<open>last_trigger_ts\<close>
  alone, so a second call one second later, inside the two seconds of cooldown counted
  from the first call, still triggers.
\<close>

theorem cooldown_after_untriggered_call_counterexample:
  "\<not> ((1000::real) \<le> 1001 \<and> 1001 - 1000 < cooldown (router_init tristesse_cfg)
       \<longrightarrow> fst (analyze (snd (analyze (router_init tristesse_cfg) 1000 ''tout va bien''))
                 1001 ''mon chat est mort'')
           = (fallback (router_init tristesse_cfg), 0))"
  by (simp add: tristesse_analyze2 tristesse_later tristesse_fields)

text \<open>
  C2, amended. When the first call triggers (it passes the gate and its best score
  reaches \<^verbatim>\<open>min_score\<close>), a second call less than \<^verbatim>\<open>cooldown\<close> seconds after it
  returns the fallback with score 0 and leaves the router alone, whatever the two texts.
\<close>

theorem analyze_cooldown_after_trigger:
  assumes "\<not> t1 - last_trigger_ts r < cooldown r"
    and "snd (pick_best r (score_all r (strip_accents (str_lower text1)))) \<ge> min_score r"
    and "t2 - t1 < cooldown r"
  shows "analyze (snd (analyze r t1 text1)) t2 text2
           = ((fallback r, 0), snd (analyze r t1 text1))"
proof -
  have "snd (analyze r t1 text1) = r\<lparr>last_trigger_ts := t1\<rparr>"
    using assms(1,2) by (simp add: analyze_cases)
  then show ?thesis
    using assms(3) by (simp add: analyze_cases)
qed

theorem analyze_cooldown_after_trigger_witness:
  "\<not> 1000 - last_trigger_ts (router_init tristesse_cfg) < cooldown (router_init tristesse_cfg)
   \<and> snd (pick_best (router_init tristesse_cfg)
        (score_all (router_init tristesse_cfg) (strip_accents (str_lower ''mon chat est mort''))))
      \<ge> min_score (router_init tristesse_cfg)
   \<and> (1001::real) - 1000 < cooldown (router_init tristesse_cfg)
   \<and> fst (analyze (snd (analyze (router_init tristesse_cfg) 1000 ''mon chat est mort''))
          1001 ''mon chat est mort'') = (''idle'', 0)"
  using analyze_cooldown_after_trigger [of 1000 "router_init tristesse_cfg"
      "''mon chat est mort''" 1001 "''mon chat est mort''"]
  by (simp add: tristesse_best1 tristesse_fields)

text \<open>
  C8. With the emotion \<^verbatim>\<open>tristesse\<close> in the routing table, keyword \<^verbatim>\<open>triste\<close> of weight
  1, phrase \<^verbatim>\<open>mon chat est mort\<close> of weight 3 and a threshold of 1, outside the cooldown
  window the text \<^verbatim>\<open>mon chat est mort\<close> gives \<^verbatim>\<open>("tristesse", 3.0)\<close> and the text
  \<^verbatim>\<open>tout va bien\<close> gives the fallback with score 0. The other emotions of the table, if
  any, score less than 3 on the first text and less than the threshold on the second.
\<close>

theorem tristesse_scenario:
  assumes routing: "routing r = pre @ (''tristesse'', \<lparr> emo_keywords = [(''triste'', 1)],
                           emo_phrases = [(''mon chat est mort'', 3)], emo_priority = p \<rparr>) # post"
    and others: "\<forall>x \<in> set pre \<union> set post.
                   score_emotion (snd x) ''mon chat est mort'' < 3
                   \<and> score_emotion (snd x) ''tout va bien'' < 1"
    and threshold: "min_score r = 1"
    and gate: "\<not> now - last_trigger_ts r < cooldown r"
  shows "analyze r now ''mon chat est mort'' = ((''tristesse'', 3), r\<lparr>last_trigger_ts := now\<rparr>)
       \<and> analyze r now ''tout va bien'' = ((fallback r, 0), r)"
proof -
  let ?d = "\<lparr> emo_keywords = [(''triste'', 1)],
              emo_phrases = [(''mon chat est mort'', 3)], emo_priority = p \<rparr>"
  let ?f = "\<lambda>t (emo, data). (emo, score_emotion data t)"
  have n: "strip_accents (str_lower ''mon chat est mort'') = ''mon chat est mort''"
    "strip_accents (str_lower ''tout va bien'') = ''tout va bien''"
    "strip_accents (str_lower ''triste'') = ''triste''"
    by code_simp+
  have sp: "py_split ''mon chat est mort'' = [''mon'', ''chat'', ''est'', ''mort'']"
    "py_split ''tout va bien'' = [''tout'', ''va'', ''bien'']"
    by code_simp+
  have d1: "score_emotion ?d ''mon chat est mort'' = 3"
    by (simp add: score_emotion_def n sp)
  have d2: "score_emotion ?d ''tout va bien'' = 0"
    by (simp add: score_emotion_def n sp)
  have s1: "score_all r ''mon chat est mort''
              = map (?f ''mon chat est mort'') pre @ (''tristesse'', 3)
                # map (?f ''mon chat est mort'') post"
    by (simp add: score_all_def routing d1)
  have "pick_loop r (map (?f ''mon chat est mort'') pre @ (''tristesse'', 3)
          # map (?f ''mon chat est mort'') post) (None, - 1) = (Some ''tristesse'', 3)"
  proof (intro pick_loop_winner)
    have "\<forall>x \<in> set (map (?f ''mon chat est mort'') pre). snd x < 3"
      using others by (simp add: case_prod_unfold)
    then show "\<forall>x \<in> set (map (?f ''mon chat est mort'') pre). snd x < 3 \<or>
            (snd x = 3 \<and> 0 < (3::real) \<and> tie_breaker r = ''priority''
               \<and> priority_get r (Some (fst x)) < priority_get r (Some ''tristesse''))"
      by blast
    have "\<forall>x \<in> set (map (?f ''mon chat est mort'') post). snd x < 3"
      using others by (simp add: case_prod_unfold)
    then show "\<forall>x \<in> set (map (?f ''mon chat est mort'') post). snd x < 3 \<or>
            (snd x = 3 \<and> (0 < (3::real) \<and> tie_breaker r = ''priority''
               \<longrightarrow> priority_get r (Some (fst x)) \<le> priority_get r (Some ''tristesse'')))"
      by blast
  qed simp
  then have b1: "pick_best r (score_all r ''mon chat est mort'') = (''tristesse'', 3)"
    by (simp add: pick_best_def s1)
  have low: "\<forall>x \<in> set (score_all r ''tout va bien''). snd x < 1"
    using others by (simp add: score_all_def routing d2 case_prod_unfold ball_Un)
  obtain be bs where acc: "pick_loop r (score_all r ''tout va bien'') (None, - 1) = (be, bs)"
    by (cases "pick_loop r (score_all r ''tout va bien'') (None, - 1)")
  from pick_loop_origin [OF acc] low have "bs < 1"
    by fastforce
  with acc have b2: "snd (pick_best r (score_all r ''tout va bien'')) < 1"
    by (simp add: pick_best_def)
  show ?thesis
    using threshold gate b1 b2 by (simp add: analyze_cases n)
qed

theorem tristesse_scenario_witness:
  "\<not> 1000 - last_trigger_ts (router_init tristesse_cfg) < cooldown (router_init tristesse_cfg)
   \<and> score_emotion \<lparr> emo_keywords = [(''content'', 1)], emo_phrases = [], emo_priority = None \<rparr>
        ''mon chat est mort'' < 3
   \<and> score_emotion \<lparr> emo_keywords = [(''content'', 1)], emo_phrases = [], emo_priority = None \<rparr>
        ''tout va bien'' < 1
   \<and> analyze (router_init tristesse_cfg) 1000 ''mon chat est mort''
       = ((''tristesse'', 3), (router_init tristesse_cfg)\<lparr>last_trigger_ts := 1000\<rparr>)
   \<and> analyze (router_init tristesse_cfg) 1000 ''tout va bien''
       = ((''idle'', 0), router_init tristesse_cfg)"
proof -
  have gate: "\<not> 1000 - last_trigger_ts (router_init tristesse_cfg) < cooldown (router_init tristesse_cfg)"
    by (simp add: tristesse_fields)
  have n: "strip_accents (str_lower ''content'') = ''content''"
    "py_split ''mon chat est mort'' = [''mon'', ''chat'', ''est'', ''mort'']"
    "py_split ''tout va bien'' = [''tout'', ''va'', ''bien'']"
    by code_simp+
  have joie: "score_emotion \<lparr> emo_keywords = [(''content'', 1)], emo_phrases = [],
                emo_priority = None \<rparr> ''mon chat est mort'' < 3
            \<and> score_emotion \<lparr> emo_keywords = [(''content'', 1)], emo_phrases = [],
                emo_priority = None \<rparr> ''tout va bien'' < 1"
    by (simp add: score_emotion_def n)
  then have others: "\<forall>x \<in> set [(''joie'', \<lparr> emo_keywords = [(''content'', 1)],
                emo_phrases = [], emo_priority = None \<rparr>)] \<union> set [].
                   score_emotion (snd x) ''mon chat est mort'' < 3
                   \<and> score_emotion (snd x) ''tout va bien'' < 1"
    by simp
  show ?thesis
    using gate joie tristesse_scenario [OF tristesse_routing others tristesse_fields(1) gate]
    by (simp add: tristesse_fields)
qed

section \<open>Tokens, substrings and the selection loop\<close>

lemma last_dropWhile:
  "dropWhile P xs \<noteq> [] \<Longrightarrow> last (dropWhile P xs) = last xs"
  using takeWhile_dropWhile_id [of P xs] last_appendR [of "dropWhile P xs" "takeWhile P xs"]
  by simp

lemma py_split_Cons:
  assumes "dropWhile is_space s = c # cs"
  shows "py_split s = takeWhile (\<lambda>x. \<not> is_space x) (c # cs)
                      # py_split (dropWhile (\<lambda>x. \<not> is_space x) (c # cs))"
  by (subst py_split.simps) (simp only: assms list.case)

lemma py_split_Nil:
  assumes "dropWhile is_space s = []"
  shows "py_split s = []"
  by (subst py_split.simps) (simp only: assms list.case)

lemma py_split_sound:
  "tok \<in> set (py_split s) \<Longrightarrow> whitespace_token s tok"
proof (induction s rule: py_split.induct)
  case (1 s)
  show ?case
  proof (cases "dropWhile is_space s")
    case Nil
    with "1.prems" show ?thesis by (simp add: py_split_Nil)
  next
    case (Cons c cs)
    let ?ws = "takeWhile is_space s"
    let ?tok1 = "takeWhile (\<lambda>x. \<not> is_space x) (c # cs)"
    let ?rest = "dropWhile (\<lambda>x. \<not> is_space x) (c # cs)"
    have s: "s = ?ws @ ?tok1 @ ?rest"
      using takeWhile_dropWhile_id [of is_space s] Cons by simp
    have c: "\<not> is_space c"
      using hd_dropWhile [of is_space s] Cons by simp
    have ws_last: "?ws = [] \<or> is_space (last ?ws)"
    proof (cases "?ws = []")
      case False
      then have "last ?ws \<in> set ?ws" by (rule last_in_set)
      then show ?thesis by (auto dest: set_takeWhileD)
    qed simp
    have rest_hd: "?rest = [] \<or> is_space (hd ?rest)"
      using hd_dropWhile [of "\<lambda>x. \<not> is_space x" "c # cs"] by blast
    from "1.prems" Cons have "tok = ?tok1 \<or> tok \<in> set (py_split ?rest)"
      by (simp add: py_split_Cons)
    then show ?thesis
    proof
      assume tok: "tok = ?tok1"
      have "tok \<noteq> []" using tok c by simp
      moreover have "\<forall>ch \<in> set tok. \<not> is_space ch"
        unfolding tok by (auto dest: set_takeWhileD)
      moreover have "s = ?ws @ tok @ ?rest" using s tok by simp
      ultimately show ?thesis
        unfolding whitespace_token_def using ws_last rest_hd by blast
    next
      assume "tok \<in> set (py_split ?rest)"
      then have "whitespace_token ?rest tok"
        using "1.IH" [OF Cons] by simp
      then obtain pre post where tok: "tok \<noteq> []" "\<forall>ch \<in> set tok. \<not> is_space ch"
        and rest: "?rest = pre @ tok @ post"
        and pre: "pre = [] \<or> is_space (last pre)"
        and post: "post = [] \<or> is_space (hd post)"
        unfolding whitespace_token_def by blast
      have "pre \<noteq> []"
      proof
        assume "pre = []"
        with rest tok(1) have "hd ?rest = hd tok" and "?rest \<noteq> []" by simp_all
        moreover have "\<not> is_space (hd tok)" using tok by simp
        ultimately show False using rest_hd by simp
      qed
      with pre have "is_space (last ((?ws @ ?tok1) @ pre))" by simp
      moreover have "s = ((?ws @ ?tok1) @ pre) @ tok @ post"
        using s rest by simp
      ultimately show ?thesis
        unfolding whitespace_token_def using tok post by blast
    qed
  qed
qed

lemma py_split_complete:
  "whitespace_token s tok \<Longrightarrow> tok \<in> set (py_split s)"
proof (induction s rule: py_split.induct)
  case (1 s)
  from "1.prems" obtain pre post where tok: "tok \<noteq> []" "\<forall>ch \<in> set tok. \<not> is_space ch"
    and s: "s = pre @ tok @ post"
    and pre: "pre = [] \<or> is_space (last pre)"
    and post: "post = [] \<or> is_space (hd post)"
    unfolding whitespace_token_def by blast
  from tok obtain t ts where tts: "tok = t # ts" and t: "\<not> is_space t"
    by (cases tok) auto
  show ?case
  proof (cases "\<forall>x \<in> set pre. is_space x")
    case True
    then have d: "dropWhile is_space s = t # (ts @ post)"
      using s tts t by (simp add: dropWhile_append2)
    have "takeWhile (\<lambda>x. \<not> is_space x) post = []"
      using post by (cases post) auto
    then have "takeWhile (\<lambda>x. \<not> is_space x) (tok @ post) = tok"
      using tok(2) by (simp add: takeWhile_append2)
    then show ?thesis
      using py_split_Cons [OF d] tts by simp
  next
    case False
    then obtain x where x: "x \<in> set pre" "\<not> is_space x" by blast
    then have pre_ne: "pre \<noteq> []" by auto
    with pre have lp: "is_space (last pre)" by simp
    let ?pre1 = "dropWhile is_space pre"
    have pre1_ne: "?pre1 \<noteq> []"
      using x by (auto simp: dropWhile_eq_Nil_conv)
    have d1: "dropWhile is_space s = ?pre1 @ tok @ post"
      using s x by (simp add: dropWhile_append1)
    obtain c cs where ccs: "?pre1 @ tok @ post = c # cs"
      using pre1_ne by (cases ?pre1) auto
    have lp1: "is_space (last ?pre1)"
      using last_dropWhile [OF pre1_ne] lp by simp
    have in1: "last ?pre1 \<in> set ?pre1" using pre1_ne by (rule last_in_set)
    let ?pre2 = "dropWhile (\<lambda>x. \<not> is_space x) ?pre1"
    have pre2_ne: "?pre2 \<noteq> []"
      using in1 lp1 by (auto simp: dropWhile_eq_Nil_conv)
    have d2: "dropWhile (\<lambda>x. \<not> is_space x) (c # cs) = ?pre2 @ tok @ post"
      using in1 lp1 ccs [symmetric] by (simp add: dropWhile_append1)
    have "is_space (last ?pre2)"
      using last_dropWhile [OF pre2_ne] lp1 by simp
    then have "whitespace_token (dropWhile (\<lambda>x. \<not> is_space x) (c # cs)) tok"
      unfolding whitespace_token_def d2 using tok post by blast
    then have "tok \<in> set (py_split (dropWhile (\<lambda>x. \<not> is_space x) (c # cs)))"
      using "1.IH" [of c cs] d1 ccs by simp
    then show ?thesis
      using py_split_Cons [of s c cs] d1 ccs by simp
  qed
qed

lemma py_split_tokens: "tok \<in> set (py_split s) \<longleftrightarrow> whitespace_token s tok"
  using py_split_sound py_split_complete by blast

lemma str_in_iff: "str_in p t \<longleftrightarrow> (\<exists>pre post. t = pre @ p @ post)"
proof (induction t)
  case Nil
  then show ?case by auto
next
  case (Cons c cs)
  show ?case
  proof
    assume "str_in p (c # cs)"
    then consider "prefix p (c # cs)" | "str_in p cs" by auto
    then show "\<exists>pre post. c # cs = pre @ p @ post"
    proof cases
      case 1
      then obtain post where "c # cs = p @ post" by (auto simp: prefix_def)
      then have "c # cs = [] @ p @ post" by simp
      then show ?thesis by blast
    next
      case 2
      with Cons.IH obtain pre post where "cs = pre @ p @ post" by blast
      then have "c # cs = (c # pre) @ p @ post" by simp
      then show ?thesis by blast
    qed
  next
    assume "\<exists>pre post. c # cs = pre @ p @ post"
    then obtain pre post where eq: "c # cs = pre @ p @ post" by blast
    show "str_in p (c # cs)"
    proof (cases pre)
      case Nil
      with eq have "prefix p (c # cs)" by (simp add: prefix_def)
      then show ?thesis by simp
    next
      case (Cons a pre')
      with eq have "cs = pre' @ p @ post" by simp
      with Cons.IH have "str_in p cs" by blast
      then show ?thesis by simp
    qed
  qed
qed

lemma keyword_loop_sum:
  "keyword_loop t kws score
     = score + (\<Sum>(kw, w) \<leftarrow> kws. if strip_accents (str_lower kw) \<in> set (py_split t) then w else 0)"
  by (induction t kws score rule: keyword_loop.induct) simp_all

lemma phrase_loop_sum:
  "phrase_loop t phs score
     = score + (\<Sum>(ph, w) \<leftarrow> phs. if str_in (strip_accents (str_lower ph)) t then w else 0)"
  by (induction t phs score rule: phrase_loop.induct) simp_all

lemma no_token_before_punctuation:
  assumes "\<not> is_space c"
  shows "kw \<notin> set (py_split (kw @ [c]))"
proof
  assume "kw \<in> set (py_split (kw @ [c]))"
  then have "whitespace_token (kw @ [c]) kw" by (rule py_split_sound)
  then obtain pre post where kw: "\<forall>ch \<in> set kw. \<not> is_space ch"
    and eq: "kw @ [c] = pre @ kw @ post"
    and pre: "pre = [] \<or> is_space (last pre)"
    and post: "post = [] \<or> is_space (hd post)"
    unfolding whitespace_token_def by blast
  have nosp: "\<forall>ch \<in> set (kw @ [c]). \<not> is_space ch"
    using kw assms by simp
  have "pre = []"
  proof (rule ccontr)
    assume ne: "pre \<noteq> []"
    then have "last pre \<in> set (pre @ kw @ post)" by simp
    with eq nosp have "\<not> is_space (last pre)" by metis
    with pre ne show False by simp
  qed
  with eq have "post = [c]" by simp
  with post assms show False by simp
qed

text \<open>
  C10. The score of an emotion on the normalised text is the sum of the weights of the
  keywords whose normalised form is a token of the text delimited by white space, plus
  the weights of the phrases whose normalised form is a contiguous substring of it. So
  a keyword directly followed by a character that is not white space, such as the
  \<^verbatim>\<open>!\<close> of \<^verbatim>\<open>triste!\<close>, is not matched as a token of that text, while a phrase is found
  whatever stands before and after it.
\<close>

theorem keyword_matching_whitespace_tokens:
  "score_emotion data (strip_accents (str_lower text))
     = (\<Sum>(kw, w) \<leftarrow> emo_keywords data.
          if whitespace_token (strip_accents (str_lower text)) (strip_accents (str_lower kw))
          then w else 0)
     + (\<Sum>(ph, w) \<leftarrow> emo_phrases data.
          if (\<exists>pre post. strip_accents (str_lower text) = pre @ strip_accents (str_lower ph) @ post)
          then w else 0)
   \<and> (\<not> is_space c \<longrightarrow> kw \<notin> set (py_split (kw @ [c])))
   \<and> str_in ph (pre @ ph @ post)"
proof (intro conjI)
  show "score_emotion data (strip_accents (str_lower text))
     = (\<Sum>(kw, w) \<leftarrow> emo_keywords data.
          if whitespace_token (strip_accents (str_lower text)) (strip_accents (str_lower kw))
          then w else 0)
     + (\<Sum>(ph, w) \<leftarrow> emo_phrases data.
          if (\<exists>pre post. strip_accents (str_lower text) = pre @ strip_accents (str_lower ph) @ post)
          then w else 0)"
    by (simp add: score_emotion_def keyword_loop_sum phrase_loop_sum py_split_tokens str_in_iff)
  show "\<not> is_space c \<longrightarrow> kw \<notin> set (py_split (kw @ [c]))"
    using no_token_before_punctuation by blast
  show "str_in ph (pre @ ph @ post)"
    unfolding str_in_iff by blast
qed

theorem keyword_matching_whitespace_tokens_witness:
  "\<not> is_space CHR ''!''
   \<and> ''triste'' \<notin> set (py_split (''triste'' @ [CHR ''!'']))
   \<and> score_emotion tristesse_data (strip_accents (str_lower ''Je suis triste!'')) = 0
   \<and> score_emotion tristesse_data (strip_accents (str_lower ''Je suis triste !'')) = 1
   \<and> score_emotion tristesse_data (strip_accents (str_lower ''Mon chat est mort!'')) = 3"
proof -
  have n1: "strip_accents (str_lower ''Je suis triste!'') = ''je suis triste!''"
    and n2: "strip_accents (str_lower ''Je suis triste !'') = ''je suis triste !''"
    and n3: "strip_accents (str_lower ''Mon chat est mort!'') = ''mon chat est mort!''"
    and n4: "strip_accents (str_lower ''triste'') = ''triste''"
    and n5: "strip_accents (str_lower ''mon chat est mort'') = ''mon chat est mort''"
    by code_simp+
  have sp: "\<not> is_space CHR ''!''" by (simp add: is_space_def)
  have t1: "py_split ''je suis triste!'' = [''je'', ''suis'', ''triste!'']"
    and t2: "py_split ''je suis triste !'' = [''je'', ''suis'', ''triste'', ''!'']"
    and t3: "py_split ''mon chat est mort!'' = [''mon'', ''chat'', ''est'', ''mort!'']"
    by (simp_all add: py_split.simps is_space_def)
  show ?thesis
    using sp
      keyword_matching_whitespace_tokens [of tristesse_data "''Je suis triste!''" "CHR ''!''"
        "''triste''" "[]" "[]" "[]"]
      keyword_matching_whitespace_tokens [of tristesse_data "''Je suis triste !''" "CHR ''!''"
        "''triste''" "[]" "[]" "[]"]
      keyword_matching_whitespace_tokens [of tristesse_data "''Mon chat est mort!''" "CHR ''!''"
        "''triste''" "[]" "[]" "[]"]
    by (simp add: n1 n2 n3 n4 n5 t1 t2 t3 tristesse_data_def py_split_tokens [symmetric]
        str_in_iff [symmetric])
qed

text \<open>
  C4, amended. Let an emotion with a non-empty name stand in the scores with score \<open>s\<close>,
  after the entries \<open>pre\<close> and before the entries \<open>post\<close>. If \<open>s\<close> is above \<open>-1\<close> and every
  other score is strictly lower, it wins. If the tie-breaker is \<^verbatim>\<open>priority\<close>, \<open>s\<close> is
  positive and no score is higher, it wins when every earlier emotion with the same
  score has a strictly lower priority and no later emotion with the same score has a
  higher one: the highest priority wins, and among equal priorities the first declared.
\<close>

theorem pick_best_selection:
  assumes "scores = pre @ (e, s) # post" and "e \<noteq> []"
  shows "(- 1 < s \<and> (\<forall>x \<in> set pre \<union> set post. snd x < s) \<longrightarrow> pick_best r scores = (e, s))
       \<and> (tie_breaker r = ''priority'' \<and> 0 < s
            \<and> (\<forall>x \<in> set pre. snd x < s \<or>
                  (snd x = s \<and> priority_get r (Some (fst x)) < priority_get r (Some e)))
            \<and> (\<forall>x \<in> set post. snd x < s \<or>
                  (snd x = s \<and> priority_get r (Some (fst x)) \<le> priority_get r (Some e)))
          \<longrightarrow> pick_best r scores = (e, s))"
proof (intro conjI impI)
  assume "- 1 < s \<and> (\<forall>x \<in> set pre \<union> set post. snd x < s)"
  then have "pick_loop r (pre @ (e, s) # post) (None, - 1) = (Some e, s)"
    by (intro pick_loop_winner) auto
  with assms show "pick_best r scores = (e, s)"
    by (simp add: pick_best_def)
next
  assume "tie_breaker r = ''priority'' \<and> 0 < s
            \<and> (\<forall>x \<in> set pre. snd x < s \<or>
                  (snd x = s \<and> priority_get r (Some (fst x)) < priority_get r (Some e)))
            \<and> (\<forall>x \<in> set post. snd x < s \<or>
                  (snd x = s \<and> priority_get r (Some (fst x)) \<le> priority_get r (Some e)))"
  then have "pick_loop r (pre @ (e, s) # post) (None, - 1) = (Some e, s)"
    by (intro pick_loop_winner) auto
  with assms show "pick_best r scores = (e, s)"
    by (simp add: pick_best_def)
qed

lemma tie_scores_super:
  "score_all (router_init tie_cfg) (strip_accents (str_lower ''Super''))
     = [(''joie'', 2)] @ (''colere'', 2) # [(''surprise'', 2), (''tristesse'', 1)]"
proof -
  have "strip_accents (str_lower ''Super'') = ''super''"
    and "strip_accents (str_lower ''super'') = ''super''"
    and "strip_accents (str_lower ''genial'') = ''genial''"
    and "py_split ''super'' = [''super'']"
    by code_simp+
  then show ?thesis
    by (simp add: score_all_def score_emotion_def router_init_def tie_cfg_def)
qed

lemma tie_scores_genial:
  "score_all (router_init tie_cfg)
     (strip_accents (str_lower [CHR ''G'', CHR 0xC9, CHR ''n'', CHR ''i'', CHR ''a'', CHR ''l'']))
     = [(''joie'', 1)] @ (''colere'', 3) # [(''surprise'', 0), (''tristesse'', 0)]"
proof -
  have "strip_accents (str_lower [CHR ''G'', CHR 0xC9, CHR ''n'', CHR ''i'', CHR ''a'', CHR ''l''])
          = ''genial''"
    and "strip_accents (str_lower ''super'') = ''super''"
    and "strip_accents (str_lower ''genial'') = ''genial''"
    and "py_split ''genial'' = [''genial'']"
    by code_simp+
  then show ?thesis
    by (simp add: score_all_def score_emotion_def router_init_def tie_cfg_def)
qed

lemma tie_fields:
  "tie_breaker (router_init tie_cfg) = ''priority''"
  "priority_get (router_init tie_cfg) (Some ''joie'') = 1"
  "priority_get (router_init tie_cfg) (Some ''colere'') = 2"
  "priority_get (router_init tie_cfg) (Some ''surprise'') = 2"
  "priority_get (router_init tie_cfg) (Some ''tristesse'') = 5"
  by (simp_all add: router_init_def tie_cfg_def priority_get_def)

theorem pick_best_selection_witness:
  "pick_best (router_init tie_cfg)
     (score_all (router_init tie_cfg) (strip_accents (str_lower ''Super''))) = (''colere'', 2)
   \<and> pick_best (router_init tie_cfg)
     (score_all (router_init tie_cfg)
        (strip_accents (str_lower [CHR ''G'', CHR 0xC9, CHR ''n'', CHR ''i'', CHR ''a'', CHR ''l''])))
     = (''colere'', 3)"
  using pick_best_selection [OF tie_scores_super, of "router_init tie_cfg"]
    pick_best_selection [OF tie_scores_genial, of "router_init tie_cfg"]
  by (simp add: tie_fields)

lemma colere_scores:
  "score_all (router_init colere_cfg) (strip_accents (str_lower ''calme'')) = [(''colere'', - 2)]"
  by (simp add: score_all_def score_emotion_def router_init_def colere_cfg_def
      strip_accents_def str_lower_def nfd_base_def str_lower_char_def is_space_def py_split.simps)

text \<open>
  C4, as stated, fails: with a negative weight the only emotion, hence the one with the
  strictly highest score, has score \<open>-2\<close>; the loop starts from the score \<open>-1\<close>, never
  selects it, and the fallback is returned with score \<open>-1\<close>.
\<close>

theorem highest_score_below_sentinel_counterexample:
  "score_all (router_init colere_cfg) (strip_accents (str_lower ''calme'')) = [(''colere'', - 2)]
   \<and> pick_best (router_init colere_cfg) [(''colere'', - 2)] = (''idle'', - 1)
   \<and> pick_best (router_init colere_cfg) [(''colere'', - 2)] \<noteq> (''colere'', - 2)"
  by (simp add: colere_scores) (simp add: pick_best_def router_init_def colere_cfg_def)

section \<open>Properties of the player\<close>

lemma play_media_Inr:
  "map_of (media_map p) name \<noteq> None \<Longrightarrow> \<exists>out. play_media fs name lp p = Inr (p, out)"
  by (auto simp: play_media_def)

lemma play_idle_Inr:
  "map_of (media_map p) (idle_name p) \<noteq> None \<Longrightarrow>
     \<exists>out. play_idle fs p = Inr (p\<lparr>current_mode := idle_name p\<rparr>, out)"
  using play_media_Inr [of "p\<lparr>current_mode := idle_name p\<rparr>" "idle_name p" fs True]
  by (auto simp: play_idle_def Let_def)

lemma play_media_frame:
  "play_media fs name lp p = Inr (p', out) \<Longrightarrow> p' = p"
  by (auto simp: play_media_def split: option.splits)

lemma play_idle_frame:
  "play_idle fs p = Inr (p', out) \<Longrightarrow> p' = p\<lparr>current_mode := idle_name p\<rparr>"
  by (auto simp: play_idle_def Let_def split: option.splits dest: play_media_frame)

lemma step_frame:
  "step fs ev p = Inr (p', out) \<Longrightarrow> media_map p' = media_map p \<and> idle_name p' = idle_name p"
  by (auto simp: step_def trigger_emotion_def on_media_end_def
      split: event.splits if_splits dest!: play_idle_frame play_media_frame)

lemma reachable_idle:
  "reachable p \<Longrightarrow> idle_name p = ''idle'' \<and> map_of (media_map p) ''idle'' \<noteq> None"
proof (induction rule: reachable.induct)
  case (reachable_init fs emotions p out)
  then show ?case
    by (auto simp: player_init_def Let_def split: if_splits dest!: play_idle_frame)
next
  case (reachable_step p fs ev p' out)
  then show ?case
    using step_frame [of fs ev p p' out] by simp
qed

lemma step_to_idle:
  assumes "map_of (media_map p) (idle_name p) \<noteq> None"
    and "ev = Media_finished \<or> ev = Trigger (idle_name p)"
  shows "\<exists>out. step fs ev p = Inr (p\<lparr>current_mode := idle_name p\<rparr>, out)"
  using assms play_idle_Inr [of p fs]
  by (auto simp: step_def on_media_end_def trigger_emotion_def)

lemma run_to_idle:
  assumes "map_of (media_map p) (idle_name p) \<noteq> None"
    and "evs \<noteq> []"
    and "\<forall>x \<in> set evs. snd x = Media_finished \<or> snd x = Trigger (idle_name p)"
  shows "\<exists>out. run evs p = Inr (p\<lparr>current_mode := idle_name p\<rparr>, out)"
  using assms
proof (induction evs arbitrary: p)
  case Nil
  then show ?case by simp
next
  case (Cons x evs)
  obtain fs ev where x: "x = (fs, ev)" by (cases x)
  let ?p1 = "p\<lparr>current_mode := idle_name p\<rparr>"
  from Cons.prems x obtain out1 where st: "step fs ev p = Inr (?p1, out1)"
    using step_to_idle [of p ev fs] by auto
  show ?case
  proof (cases "evs = []")
    case True
    with st x show ?thesis by simp
  next
    case False
    from Cons.prems have "map_of (media_map ?p1) (idle_name ?p1) \<noteq> None"
      and "\<forall>x \<in> set evs. snd x = Media_finished \<or> snd x = Trigger (idle_name ?p1)"
      by simp_all
    from Cons.IH [OF this(1) False this(2)]
    obtain out2 where "run evs ?p1 = Inr (?p1\<lparr>current_mode := idle_name ?p1\<rparr>, out2)" ..
    with st x show ?thesis by simp
  qed
qed

lemma demo_init:
  "player_init (\<lambda>_. True) demo_emotions
     = Inr (demo_player, [Vlc_set_media ''/v/idle.mp4'', Vlc_add_option ''input-repeat=-1'',
                          Vlc_play, Sleep])"
  by (simp add: player_init_def demo_emotions_def demo_player_def play_idle_def play_media_def)

lemma demo_reachable: "reachable demo_player"
  using reachable_init [OF demo_init] .

text \<open>
  C3. In a reachable state of the player, after \<^verbatim>\<open>trigger_emotion(X)\<close> for an emotion
  \<open>X\<close> of the media map other than idle, any run of one or more media-finished events
  raises nothing and ends with \<^verbatim>\<open>current_mode\<close> equal to idle; the events after the
  first one arrive while the player is already idle.
\<close>

theorem media_finished_returns_to_idle:
  assumes "reachable p"
    and "map_of (media_map p) X \<noteq> None"
    and "X \<noteq> ''idle''"
    and "evs \<noteq> []"
    and "\<forall>x \<in> set evs. snd x = Media_finished"
  shows "\<exists>p1 out1 p2 out2.
           trigger_emotion fs X p = Inr (p1, out1) \<and> current_mode p1 = X
           \<and> run evs p1 = Inr (p2, out2) \<and> current_mode p2 = ''idle''"
proof -
  let ?p1 = "p\<lparr>current_mode := X\<rparr>"
  from assms(1) have inv: "idle_name p = ''idle''" "map_of (media_map p) ''idle'' \<noteq> None"
    by (simp_all add: reachable_idle)
  from assms(2) obtain out1 where "play_media fs X False ?p1 = Inr (?p1, out1)"
    using play_media_Inr [of ?p1 X fs False] by auto
  with assms(2,3) inv have t: "trigger_emotion fs X p = Inr (?p1, out1)"
    by (auto simp: trigger_emotion_def)
  from inv assms(4,5) obtain out2
    where "run evs ?p1 = Inr (?p1\<lparr>current_mode := idle_name ?p1\<rparr>, out2)"
    using run_to_idle [of ?p1 evs] by auto
  with t inv show ?thesis by simp
qed

theorem media_finished_returns_to_idle_witness:
  "reachable demo_player
   \<and> map_of (media_map demo_player) ''joie'' \<noteq> None
   \<and> ''joie'' \<noteq> ''idle''
   \<and> (\<exists>p1 out1 p2 out2.
         trigger_emotion (\<lambda>_. True) ''joie'' demo_player = Inr (p1, out1)
         \<and> current_mode p1 = ''joie''
         \<and> run [(\<lambda>_. True, Media_finished), (\<lambda>_. False, Media_finished)] p1 = Inr (p2, out2)
         \<and> current_mode p2 = ''idle'')"
proof -
  have known: "map_of (media_map demo_player) ''joie'' \<noteq> None"
    by (simp add: demo_player_def demo_emotions_def)
  have other: "''joie'' \<noteq> ''idle''" by simp
  show ?thesis
    using demo_reachable known other
      media_finished_returns_to_idle [OF demo_reachable known other,
        of "[(\<lambda>_. True, Media_finished), (\<lambda>_. False, Media_finished)]" "\<lambda>_. True"]
    by simp
qed

text \<open>
  C6. For a name that is not a key of the media map, \<^verbatim>\<open>trigger_emotion\<close> prints its
  message, raises nothing, gives no command to the VLC player and returns the player as
  it was, in every state.
\<close>

theorem trigger_unknown_noop:
  "map_of (media_map p) name = None \<Longrightarrow> trigger_emotion fs name p = Inr (p, [Print_unknown name])"
  by (simp add: trigger_emotion_def)

theorem trigger_unknown_noop_witness:
  "map_of (media_map demo_player) ''peur'' = None
   \<and> trigger_emotion (\<lambda>_. True) ''peur'' demo_player = Inr (demo_player, [Print_unknown ''peur''])"
proof -
  have unknown: "map_of (media_map demo_player) ''peur'' = None"
    by (simp add: demo_player_def demo_emotions_def)
  show ?thesis
    using unknown trigger_unknown_noop [OF unknown, of "\<lambda>_. True"] by simp
qed

text \<open>
  C7. In a reachable state of the player, one or more calls of \<^verbatim>\<open>trigger_emotion\<close> on
  idle in a row raise nothing and end in the state of the start with \<^verbatim>\<open>current_mode\<close>
  set to idle, which is also the state after the first of them.
\<close>

theorem trigger_idle_idempotent:
  assumes "reachable p"
    and "evs \<noteq> []"
    and "\<forall>x \<in> set evs. snd x = Trigger ''idle''"
  shows "\<exists>out. run evs p = Inr (p\<lparr>current_mode := ''idle''\<rparr>, out)
               \<and> current_mode (p\<lparr>current_mode := ''idle''\<rparr>) = ''idle''"
proof -
  from assms(1) have inv: "idle_name p = ''idle''" "map_of (media_map p) ''idle'' \<noteq> None"
    by (simp_all add: reachable_idle)
  with assms(2,3) show ?thesis
    using run_to_idle [of p evs] by auto
qed

theorem trigger_idle_idempotent_witness:
  "reachable demo_player
   \<and> (\<exists>out. run [(\<lambda>_. True, Trigger ''idle''), (\<lambda>_. True, Trigger ''idle''),
                  (\<lambda>_. True, Trigger ''idle'')] demo_player
              = Inr (demo_player\<lparr>current_mode := ''idle''\<rparr>, out))"
  using demo_reachable
    trigger_idle_idempotent [OF demo_reachable,
      of "[(\<lambda>_. True, Trigger ''idle''), (\<lambda>_. True, Trigger ''idle''), (\<lambda>_. True, Trigger ''idle'')]"]
  by simp

end
